theory Spec2Isabelle
  imports
    Main
    "HOL-Library.AList"
    "HOL-Library.Char_ord"
    "HOL-Library.List_Lexorder"
    "HOL-Library.Multiset"
    "HOL-Library.Signed_Division"
begin

section \<open>Values exchanged with the remote service and the stats file\<close>

text \<open>
  \<^verbatim>\<open>update_stats.py\<close> works on decoded JSON: the bodies returned by \<^verbatim>\<open>resp.json()\<close> and the
  content of \<^verbatim>\<open>stats.json\<close> read by \<^verbatim>\<open>json.load\<close>. A JSON object is an association list in
  insertion order, as a Python \<^verbatim>\<open>dict\<close> keeps it. A float is either a finite value
  \<open>m * 2 ^ e\<close> (every IEEE double has this form) or one of the specials that
  \<^verbatim>\<open>json.loads\<close> accepts.
\<close>

datatype pyfloat = Finite int int | NaN | Infinity bool

datatype json =
    JNull
  | JBool bool
  | JInt int
  | JFloat pyfloat
  | JStr string
  | JList "json list"
  | JObj "(string \<times> json) list"

text \<open>The exceptions that the builtins used by the script raise.\<close>

datatype py_error =
    ValueError
  | TypeError
  | OverflowError
  | AttributeError
  | JSONDecodeError
  | RequestException
  | OSError

text \<open>Truth value of an object, as \<^verbatim>\<open>if x\<close> and \<^verbatim>\<open>not x\<close> test it.\<close>

fun truthy :: "json \<Rightarrow> bool" where
  "truthy JNull = False"
| "truthy (JBool b) = b"
| "truthy (JInt n) = (n \<noteq> 0)"
| "truthy (JFloat (Finite m e)) = (m \<noteq> 0)"
| "truthy (JFloat NaN) = True"
| "truthy (JFloat (Infinity s)) = True"
| "truthy (JStr s) = (s \<noteq> [])"
| "truthy (JList xs) = (xs \<noteq> [])"
| "truthy (JObj kvs) = (kvs \<noteq> [])"

text \<open>
  \<^verbatim>\<open>x.get(key, default)\<close>: only a \<^verbatim>\<open>dict\<close> has the method; on any other JSON value the
  attribute lookup raises \<^verbatim>\<open>AttributeError\<close>.
\<close>

fun py_get :: "json \<Rightarrow> string \<Rightarrow> json \<Rightarrow> py_error + json" where
  "py_get (JObj kvs) k d = Inr (case map_of kvs k of None \<Rightarrow> d | Some v \<Rightarrow> v)"
| "py_get _ k d = Inl AttributeError"

text \<open>
  \<^verbatim>\<open>int(x)\<close>. A float is truncated toward zero; \<^verbatim>\<open>nan\<close> and the infinities raise. The
  parsing of a string is Python's own and is not reproduced here: it is the parameter
  \<open>str_int\<close>, which gives \<open>None\<close> where \<^verbatim>\<open>int\<close> raises \<^verbatim>\<open>ValueError\<close>.
\<close>

definition float_trunc :: "int \<Rightarrow> int \<Rightarrow> int" where
  "float_trunc m e =
     (if 0 \<le> e then m * 2 ^ nat e else sgn m * (\<bar>m\<bar> div 2 ^ nat (- e)))"

fun py_int :: "(string \<Rightarrow> int option) \<Rightarrow> json \<Rightarrow> py_error + int" where
  "py_int str_int (JInt n) = Inr n"
| "py_int str_int (JBool b) = Inr (if b then 1 else 0)"
| "py_int str_int (JFloat (Finite m e)) = Inr (float_trunc m e)"
| "py_int str_int (JFloat NaN) = Inl ValueError"
| "py_int str_int (JFloat (Infinity s)) = Inl OverflowError"
| "py_int str_int (JStr s) = (case str_int s of None \<Rightarrow> Inl ValueError | Some n \<Rightarrow> Inr n)"
| "py_int str_int JNull = Inl TypeError"
| "py_int str_int (JList xs) = Inl TypeError"
| "py_int str_int (JObj kvs) = Inl TypeError"

section \<open>Summation of weekly samples\<close>

text \<open>
  Lines 146--151 of \<^verbatim>\<open>compute_total_lines\<close>, one iteration:
  \<^verbatim>\<open>
    if not isinstance(week, list) or len(week) < 3:
        continue
    _, additions, deletions = week
    repo_total += int(additions) - int(deletions)
  \<close>
  The unpacking into three names raises \<^verbatim>\<open>ValueError\<close> on a list of another length.
\<close>

fun add_week :: "(string \<Rightarrow> int option) \<Rightarrow> int \<Rightarrow> json \<Rightarrow> py_error + int" where
  "add_week str_int repo_total (JList ws) =
     (if length ws < 3 then Inr repo_total
      else (case ws of
              [t, additions, deletions] \<Rightarrow>
                (case py_int str_int additions of
                   Inl err \<Rightarrow> Inl err
                 | Inr a \<Rightarrow>
                     (case py_int str_int deletions of
                        Inl err \<Rightarrow> Inl err
                      | Inr d \<Rightarrow> Inr (repo_total + (a - d))))
            | _ \<Rightarrow> Inl ValueError))"
| "add_week str_int repo_total _ = Inr repo_total"

fun sum_weeks :: "(string \<Rightarrow> int option) \<Rightarrow> int \<Rightarrow> json list \<Rightarrow> py_error + int" where
  "sum_weeks str_int repo_total [] = Inr repo_total"
| "sum_weeks str_int repo_total (week # freq) =
     (case add_week str_int repo_total week of
        Inl err \<Rightarrow> Inl err
      | Inr repo_total' \<Rightarrow> sum_weeks str_int repo_total' freq)"

section \<open>The remote service and the trace of a run\<close>

text \<open>
  The script talks to three resources of the service. What it does besides computing is
  recorded as a trace of events: each \<^verbatim>\<open>session.get\<close>, each \<^verbatim>\<open>time.sleep\<close>, each
  \<^verbatim>\<open>print\<close> (its tag and the source line of the statement) and each access to
  \<^verbatim>\<open>stats.json\<close>. The service is any function of the trace so far and the request; it
  answers with a response or the call raises (a timeout, a connection error).
  \<open>body\<close> is \<open>None\<close> when the payload is not JSON, so that \<^verbatim>\<open>resp.json()\<close> raises.
\<close>

datatype request =
    UserRepos nat
  | CodeFrequency json json
  | Languages json json

record response =
  status_code :: int
  body :: "json option"

datatype tag = Info | Warn | Error

datatype event =
    Get request
  | Sleep int
  | Print tag nat
  | OpenRead
  | WriteStats "json list"
  | WriteFailed

type_synonym trace = "event list"

type_synonym server = "trace \<Rightarrow> request \<Rightarrow> py_error + response"

definition session_get :: "server \<Rightarrow> request \<Rightarrow> trace \<Rightarrow> (py_error + response) \<times> trace" where
  "session_get srv req tr = (srv tr req, tr @ [Get req])"

subsection \<open>\<^verbatim>\<open>fetch_repo_code_frequency\<close>\<close>

text \<open>
  The loop \<^verbatim>\<open>for attempt in range(1, retries + 1)\<close> of lines 80--109, as a recursion over
  the attempts still to make. \<^verbatim>\<open>time.sleep\<close> raises \<^verbatim>\<open>ValueError\<close> on a negative length.
  The result is \<open>None\<close> (unavailable) or the list of samples.
\<close>

fun code_frequency_attempts ::
  "server \<Rightarrow> json \<Rightarrow> json \<Rightarrow> int \<Rightarrow> int \<Rightarrow> int list \<Rightarrow> trace
     \<Rightarrow> (py_error + json list option) \<times> trace" where
  "code_frequency_attempts srv owner name retries backoff_seconds [] tr = (Inr None, tr)"
| "code_frequency_attempts srv owner name retries backoff_seconds (attempt # rest) tr =
     (case session_get srv (CodeFrequency owner name) tr of
        (Inl err, tr1) \<Rightarrow> (Inl err, tr1)
      | (Inr resp, tr1) \<Rightarrow>
          if status_code resp = 202 then
            (if attempt = retries then (Inr None, tr1 @ [Print Warn 86])
             else if backoff_seconds < 0 then (Inl ValueError, tr1 @ [Print Info 89])
             else code_frequency_attempts srv owner name retries backoff_seconds rest
                    (tr1 @ [Print Info 89, Sleep backoff_seconds]))
          else if status_code resp = 204 then (Inr (Some []), tr1 @ [Print Warn 95])
          else if status_code resp \<noteq> 200 then (Inr None, tr1 @ [Print Warn 99])
          else (case body resp of
                  None \<Rightarrow> (Inl JSONDecodeError, tr1)
                | Some (JList data) \<Rightarrow> (Inr (Some data), tr1)
                | Some _ \<Rightarrow> (Inr None, tr1 @ [Print Warn 104])))"

definition fetch_repo_code_frequency ::
  "server \<Rightarrow> json \<Rightarrow> json \<Rightarrow> int \<Rightarrow> int \<Rightarrow> trace \<Rightarrow> (py_error + json list option) \<times> trace" where
  "fetch_repo_code_frequency srv owner name retries backoff_seconds tr =
     code_frequency_attempts srv owner name retries backoff_seconds [1..retries] tr"

subsection \<open>\<^verbatim>\<open>fetch_repo_languages\<close>\<close>

text \<open>The comprehension \<^verbatim>\<open>{k: int(v) for k, v in data.items()}\<close> of line 124.\<close>

fun int_values ::
  "(string \<Rightarrow> int option) \<Rightarrow> (string \<times> json) list \<Rightarrow> py_error + (string \<times> int) list" where
  "int_values str_int [] = Inr []"
| "int_values str_int ((k, v) # kvs) =
     (case py_int str_int v of
        Inl err \<Rightarrow> Inl err
      | Inr n \<Rightarrow>
          (case int_values str_int kvs of
             Inl err \<Rightarrow> Inl err
           | Inr langs \<Rightarrow> Inr ((k, n) # langs)))"

definition fetch_repo_languages ::
  "(string \<Rightarrow> int option) \<Rightarrow> server \<Rightarrow> json \<Rightarrow> json \<Rightarrow> trace
     \<Rightarrow> (py_error + (string \<times> int) list option) \<times> trace" where
  "fetch_repo_languages str_int srv owner name tr =
     (case session_get srv (Languages owner name) tr of
        (Inl err, tr1) \<Rightarrow> (Inl err, tr1)
      | (Inr resp, tr1) \<Rightarrow>
          if status_code resp \<noteq> 200 then (Inr None, tr1 @ [Print Warn 119])
          else (case body resp of
                  None \<Rightarrow> (Inl JSONDecodeError, tr1)
                | Some (JObj kvs) \<Rightarrow>
                    (case int_values str_int kvs of
                       Inl err \<Rightarrow> (Inl err, tr1)
                     | Inr langs \<Rightarrow> (Inr (Some langs), tr1))
                | Some _ \<Rightarrow> (Inr None, tr1)))"

section \<open>\<^verbatim>\<open>compute_total_lines\<close>\<close>

text \<open>
  Lines 156--157: \<^verbatim>\<open>byte_sum = sum(langs.values()); repo_total = byte_sum // 50\<close>. Python's
  \<^verbatim>\<open>//\<close> is floor division, which is \<open>div\<close> on \<open>int\<close>.
\<close>

definition languages_estimate :: "(string \<times> int) list \<Rightarrow> int" where
  "languages_estimate langs = sum_list (map snd langs) div 50"

text \<open>
  Lines 142--158: the value of \<^verbatim>\<open>repo_total\<close> when line 160 prints it. The fetch is called
  with its defaults, 5 retries and 8 seconds. \<^verbatim>\<open>if langs:\<close> is false for \<open>None\<close> and
  for the empty mapping.
\<close>

definition repo_total ::
  "(string \<Rightarrow> int option) \<Rightarrow> server \<Rightarrow> json \<Rightarrow> json \<Rightarrow> trace \<Rightarrow> (py_error + int) \<times> trace" where
  "repo_total str_int srv owner name tr =
     (case fetch_repo_code_frequency srv owner name 5 8 tr of
        (Inl err, tr1) \<Rightarrow> (Inl err, tr1)
      | (Inr (Some freq), tr1) \<Rightarrow>
          (case sum_weeks str_int 0 freq of
             Inl err \<Rightarrow> (Inl err, tr1)
           | Inr estimate \<Rightarrow> (Inr estimate, tr1))
      | (Inr None, tr1) \<Rightarrow>
          (case fetch_repo_languages str_int srv owner name tr1 of
             (Inl err, tr2) \<Rightarrow> (Inl err, tr2)
           | (Inr None, tr2) \<Rightarrow> (Inr 0, tr2)
           | (Inr (Some langs), tr2) \<Rightarrow>
               if langs = [] then (Inr 0, tr2)
               else (Inr (languages_estimate langs), tr2 @ [Print Info 158])))"

text \<open>
  One iteration of the loop over the repositories, lines 135--161; \<open>total_lines\<close> is the
  running total. \<^verbatim>\<open>continue\<close> leaves the total and the trace as they are.
\<close>

definition count_repo ::
  "(string \<Rightarrow> int option) \<Rightarrow> server \<Rightarrow> int \<Rightarrow> json \<Rightarrow> trace \<Rightarrow> (py_error + int) \<times> trace" where
  "count_repo str_int srv total_lines repo tr =
     (case py_get repo ''full_name'' (JStr []) of
        Inl err \<Rightarrow> (Inl err, tr)
      | Inr full_name \<Rightarrow>
     (case py_get repo ''owner'' (JObj []) of
        Inl err \<Rightarrow> (Inl err, tr)
      | Inr owner_obj \<Rightarrow>
     (case py_get owner_obj ''login'' (JStr []) of
        Inl err \<Rightarrow> (Inl err, tr)
      | Inr owner \<Rightarrow>
     (case py_get repo ''name'' (JStr []) of
        Inl err \<Rightarrow> (Inl err, tr)
      | Inr name \<Rightarrow>
          if \<not> truthy owner \<or> \<not> truthy name then (Inr total_lines, tr)
          else (case repo_total str_int srv owner name (tr @ [Print Info 141]) of
                  (Inl err, tr1) \<Rightarrow> (Inl err, tr1)
                | (Inr estimate, tr1) \<Rightarrow>
                    (Inr (total_lines + max estimate 0), tr1 @ [Print Info 160]))))))"

fun count_repos ::
  "(string \<Rightarrow> int option) \<Rightarrow> server \<Rightarrow> int \<Rightarrow> json list \<Rightarrow> trace \<Rightarrow> (py_error + int) \<times> trace" where
  "count_repos str_int srv total_lines [] tr = (Inr total_lines, tr)"
| "count_repos str_int srv total_lines (repo # repos) tr =
     (case count_repo str_int srv total_lines repo tr of
        (Inl err, tr1) \<Rightarrow> (Inl err, tr1)
      | (Inr total_lines', tr1) \<Rightarrow> count_repos str_int srv total_lines' repos tr1)"

definition compute_total_lines ::
  "(string \<Rightarrow> int option) \<Rightarrow> server \<Rightarrow> json list \<Rightarrow> trace \<Rightarrow> (py_error + int) \<times> trace" where
  "compute_total_lines str_int srv repos tr =
     (case count_repos str_int srv 0 repos tr of
        (Inl err, tr1) \<Rightarrow> (Inl err, tr1)
      | (Inr total_lines, tr1) \<Rightarrow> (Inr (max total_lines 0), tr1 @ [Print Info 163]))"

section \<open>\<^verbatim>\<open>fetch_all_repos\<close>\<close>

text \<open>
  \<^verbatim>\<open>repos.extend(batch)\<close> iterates over the batch: over the elements of a list, the keys
  of an object, the characters of a string; a number is not iterable.
\<close>

fun py_extend :: "json list \<Rightarrow> json \<Rightarrow> py_error + json list" where
  "py_extend repos (JList xs) = Inr (repos @ xs)"
| "py_extend repos (JObj kvs) = Inr (repos @ map (\<lambda>kv. JStr (fst kv)) kvs)"
| "py_extend repos (JStr s) = Inr (repos @ map (\<lambda>c. JStr [c]) s)"
| "py_extend repos _ = Inl TypeError"

text \<open>
  The paging loop \<^verbatim>\<open>while True\<close> of lines 40--59. It ends at the first response that is
  not 200 or whose batch is empty, and runs forever against a service that never sends
  one: the result \<open>None\<close> stands for a loop that does not return.
\<close>

partial_function (option) fetch_pages ::
  "server \<Rightarrow> nat \<Rightarrow> json list \<Rightarrow> trace \<Rightarrow> ((py_error + json list) \<times> trace) option" where
  "fetch_pages srv page repos tr =
     (case session_get srv (UserRepos page) tr of
        (Inl err, tr1) \<Rightarrow> Some (Inl err, tr1)
      | (Inr resp, tr1) \<Rightarrow>
          if status_code resp \<noteq> 200 then Some (Inr repos, tr1 @ [Print Error 50])
          else (case body resp of
                  None \<Rightarrow> Some (Inl JSONDecodeError, tr1)
                | Some batch \<Rightarrow>
                    if \<not> truthy batch then Some (Inr repos, tr1)
                    else (case py_extend repos batch of
                            Inl err \<Rightarrow> Some (Inl err, tr1)
                          | Inr repos' \<Rightarrow>
                              fetch_pages srv (page + 1) repos' (tr1 @ [Print Info 58]))))"

text \<open>Line 61: \<^verbatim>\<open>[r for r in repos if not r.get("fork")]\<close>.\<close>

fun non_fork_repos :: "json list \<Rightarrow> py_error + json list" where
  "non_fork_repos [] = Inr []"
| "non_fork_repos (r # repos) =
     (case py_get r ''fork'' JNull of
        Inl err \<Rightarrow> Inl err
      | Inr fork \<Rightarrow>
          (case non_fork_repos repos of
             Inl err \<Rightarrow> Inl err
           | Inr rest \<Rightarrow> Inr (if truthy fork then rest else r # rest)))"

definition fetch_all_repos ::
  "server \<Rightarrow> trace \<Rightarrow> ((py_error + json list) \<times> trace) option" where
  "fetch_all_repos srv tr =
     (case fetch_pages srv 1 [] (tr @ [Print Info 38]) of
        None \<Rightarrow> None
      | Some (Inl err, tr1) \<Rightarrow> Some (Inl err, tr1)
      | Some (Inr repos, tr1) \<Rightarrow>
          (case non_fork_repos repos of
             Inl err \<Rightarrow> Some (Inl err, tr1)
           | Inr non_forks \<Rightarrow> Some (Inr non_forks, tr1 @ [Print Info 62])))"

section \<open>The stats file\<close>

text \<open>
  \<^verbatim>\<open>stats.json\<close> is absent, cannot be opened or read, holds text that \<^verbatim>\<open>json.load\<close>
  rejects, or holds a JSON value. \<open>read_json\<close> is the body of the \<^verbatim>\<open>try\<close> of lines
  173--174; \<^verbatim>\<open>except Exception\<close> of line 179 catches whatever it raises.
\<close>

datatype stats_file = Absent | Unreadable | Undecodable | Content json

fun read_json :: "stats_file \<Rightarrow> py_error + json" where
  "read_json Absent = Inl OSError"
| "read_json Unreadable = Inl OSError"
| "read_json Undecodable = Inl JSONDecodeError"
| "read_json (Content data) = Inr data"

definition load_existing_stats :: "stats_file \<Rightarrow> trace \<Rightarrow> (py_error + json list) \<times> trace" where
  "load_existing_stats file tr =
     (if file = Absent then (Inr [], tr @ [Print Info 169])
      else (case read_json file of
              Inr (JList data) \<Rightarrow> (Inr data, tr @ [OpenRead])
            | Inr _ \<Rightarrow> (Inr [], tr @ [OpenRead, Print Warn 177])
            | Inl err \<Rightarrow> (Inr [], tr @ [OpenRead, Print Error 180])))"

text \<open>
  \<^verbatim>\<open>save_stats\<close>, lines 184--187. \<^verbatim>\<open>open(STATS_FILE, "w")\<close> can raise, and then the file is as
  it was; it truncates the file when it succeeds, so a \<^verbatim>\<open>json.dump\<close> that raises after it
  leaves a file that is cut short, and a proper prefix of the text of a JSON array is not
  JSON. Nothing catches either exception. Which of the three happens is up to the disk.
\<close>

datatype write_outcome = Written | OpenFails | DumpFails

fun save_stats ::
  "write_outcome \<Rightarrow> json list \<Rightarrow> stats_file \<Rightarrow> trace \<Rightarrow> (py_error + unit) \<times> stats_file \<times> trace" where
  "save_stats Written data file tr =
     (Inr (), Content (JList data), tr @ [WriteStats data, Print Info 187])"
| "save_stats OpenFails data file tr = (Inl OSError, file, tr @ [WriteFailed])"
| "save_stats DumpFails data file tr = (Inl OSError, Undecodable, tr @ [WriteFailed])"

section \<open>Merging today's total into the records\<close>

text \<open>
  Lines 203--208: the loop that overwrites the first entry of today's date. The flag is
  \<^verbatim>\<open>updated\<close>. \<^verbatim>\<open>entry["total_lines"] = total_lines\<close> keeps the position of an existing key
  and appends a new one, as \<open>AList.update\<close> does.
\<close>

fun overwrite_today :: "string \<Rightarrow> int \<Rightarrow> json list \<Rightarrow> py_error + json list \<times> bool" where
  "overwrite_today today total_lines [] = Inr ([], False)"
| "overwrite_today today total_lines (entry # existing) =
     (case py_get entry ''date'' JNull of
        Inl err \<Rightarrow> Inl err
      | Inr date \<Rightarrow>
          if date = JStr today then
            (case entry of
               JObj kvs \<Rightarrow>
                 Inr (JObj (AList.update ''total_lines'' (JInt total_lines) kvs) # existing, True)
             | _ \<Rightarrow> Inl TypeError)
          else (case overwrite_today today total_lines existing of
                  Inl err \<Rightarrow> Inl err
                | Inr (existing', updated) \<Rightarrow> Inr (entry # existing', updated)))"

text \<open>
  Line 214: \<^verbatim>\<open>existing.sort(key=lambda x: x.get("date", ""))\<close>. The keys are computed
  first, for every entry. \<^verbatim>\<open>list.sort\<close> is stable and compares keys with \<^verbatim>\<open><\<close>; on
  strings that is the lexicographic order, and a list of at most one entry is compared
  with nothing. What the sort does with two or more keys that are not all strings
  (numbers are ordered, \<^verbatim>\<open>None\<close> is not, mixed types raise \<^verbatim>\<open>TypeError\<close>) depends on the
  comparisons it makes and is the parameter \<open>sort_other\<close>.
\<close>

fun date_keys :: "json list \<Rightarrow> py_error + json list" where
  "date_keys [] = Inr []"
| "date_keys (x # xs) =
     (case py_get x ''date'' (JStr []) of
        Inl err \<Rightarrow> Inl err
      | Inr k \<Rightarrow>
          (case date_keys xs of
             Inl err \<Rightarrow> Inl err
           | Inr ks \<Rightarrow> Inr (k # ks)))"

fun is_str :: "json \<Rightarrow> bool" where
  "is_str (JStr s) = True"
| "is_str _ = False"

definition date_key :: "json \<Rightarrow> string" where
  "date_key x = (case py_get x ''date'' (JStr []) of Inr (JStr s) \<Rightarrow> s | _ \<Rightarrow> [])"

definition sort_by_date ::
  "(json list \<Rightarrow> py_error + json list) \<Rightarrow> json list \<Rightarrow> py_error + json list" where
  "sort_by_date sort_other existing =
     (case date_keys existing of
        Inl err \<Rightarrow> Inl err
      | Inr keys \<Rightarrow>
          if length existing \<le> 1 then Inr existing
          else if list_all is_str keys then Inr (sort_key date_key existing)
          else sort_other existing)"

text \<open>Lines 203--214 together: overwrite or append, then sort.\<close>

definition upsert ::
  "(json list \<Rightarrow> py_error + json list) \<Rightarrow> json list \<Rightarrow> string \<Rightarrow> int
     \<Rightarrow> py_error + json list" where
  "upsert sort_other existing today total_lines =
     (case overwrite_today today total_lines existing of
        Inl err \<Rightarrow> Inl err
      | Inr (existing', updated) \<Rightarrow>
          sort_by_date sort_other
            (if updated then existing'
             else existing' @ [JObj [(''date'', JStr today), (''total_lines'', JInt total_lines)]]))"

section \<open>\<^verbatim>\<open>update_stats\<close>\<close>

text \<open>
  What a run depends on: the service, the two builtins left as parameters, whether a
  token is set in the environment (\<^verbatim>\<open>get_session\<close> warns when none is), the UTC date
  and what the disk does with the write.
\<close>

record env =
  server :: server
  str_int :: "string \<Rightarrow> int option"
  sort_other :: "json list \<Rightarrow> py_error + json list"
  token :: bool
  today :: string
  disk :: write_outcome

definition get_session :: "bool \<Rightarrow> trace \<Rightarrow> trace" where
  "get_session tok tr = (if tok then tr else tr @ [Print Warn 25])"

definition update_stats ::
  "env \<Rightarrow> stats_file \<Rightarrow> trace \<Rightarrow> ((py_error + unit) \<times> stats_file \<times> trace) option" where
  "update_stats e file tr =
     (case fetch_all_repos (server e) (get_session (token e) tr) of
        None \<Rightarrow> None
      | Some (Inl err, tr1) \<Rightarrow> Some (Inl err, file, tr1)
      | Some (Inr repos, tr1) \<Rightarrow>
          if repos = [] then Some (Inr (), file, tr1 @ [Print Warn 194])
          else (case compute_total_lines (str_int e) (server e) repos tr1 of
                  (Inl err, tr2) \<Rightarrow> Some (Inl err, file, tr2)
                | (Inr total_lines, tr2) \<Rightarrow>
                    (case load_existing_stats file tr2 of
                       (Inl err, tr3) \<Rightarrow> Some (Inl err, file, tr3)
                     | (Inr existing, tr3) \<Rightarrow>
                         (case upsert (sort_other e) existing (today e) total_lines of
                            Inl err \<Rightarrow> Some (Inl err, file, tr3)
                          | Inr records \<Rightarrow>
                              (case save_stats (disk e) records file tr3 of
                                 (Inl err, file', tr4) \<Rightarrow> Some (Inl err, file', tr4)
                               | (Inr u, file', tr4) \<Rightarrow> Some (Inr (), file', tr4))))))"

section \<open>Notions used in the statements\<close>

text \<open>
  The guard of line 147 skips a sample that is not a list or has fewer than three
  elements. A sample the loop can add is a list of exactly three elements whose second
  and third \<^verbatim>\<open>int\<close> converts; its net change is \<^verbatim>\<open>int(additions) - int(deletions)\<close>.
\<close>

fun skipped :: "json \<Rightarrow> bool" where
  "skipped (JList ws) = (length ws < 3)"
| "skipped _ = True"

definition converts :: "(string \<Rightarrow> int option) \<Rightarrow> json \<Rightarrow> bool" where
  "converts si v = (case py_int si v of Inl err \<Rightarrow> False | Inr n \<Rightarrow> True)"

definition int_of :: "(string \<Rightarrow> int option) \<Rightarrow> json \<Rightarrow> int" where
  "int_of si v = (case py_int si v of Inl err \<Rightarrow> 0 | Inr n \<Rightarrow> n)"

fun well_formed :: "(string \<Rightarrow> int option) \<Rightarrow> json \<Rightarrow> bool" where
  "well_formed si (JList [t, additions, deletions]) =
     (converts si additions \<and> converts si deletions)"
| "well_formed si _ = False"

fun net_change :: "(string \<Rightarrow> int option) \<Rightarrow> json \<Rightarrow> int" where
  "net_change si (JList [t, additions, deletions]) = int_of si additions - int_of si deletions"
| "net_change si _ = 0"

text \<open>
  A service for the examples: the first page of the listing is \<open>page1\<close> and every later
  page is empty; the two statistics resources answer \<open>freq\<close> and \<open>langs\<close>, whatever the
  repository and the history.
\<close>

definition scripted_service ::
  "json \<Rightarrow> py_error + response \<Rightarrow> py_error + response \<Rightarrow> server" where
  "scripted_service page1 freq langs h req =
     (case req of
        UserRepos page \<Rightarrow>
          Inr \<lparr>status_code = 200, body = Some (if page = 1 then page1 else JList [])\<rparr>
      | CodeFrequency owner name \<Rightarrow> freq
      | Languages owner name \<Rightarrow> langs)"

text \<open>A \<open>str_int\<close> for the examples, under which no string converts.\<close>

definition no_digits :: "string \<Rightarrow> int option" where
  "no_digits s = None"

text \<open>
  The fields of a repository descriptor. \<open>field\<close> is the value under a key of an
  object, if there is one. The loop reads the login under \<^verbatim>\<open>owner\<close> and the \<^verbatim>\<open>name\<close>, and
  tests them with \<^verbatim>\<open>not\<close>: a value is missing or empty when the key is absent or the
  value is false in Python's sense.
\<close>

fun field :: "json \<Rightarrow> string \<Rightarrow> json option" where
  "field (JObj kvs) k = map_of kvs k"
| "field _ k = None"

fun is_obj :: "json \<Rightarrow> bool" where
  "is_obj (JObj kvs) = True"
| "is_obj _ = False"

definition owner_login :: "json \<Rightarrow> json option" where
  "owner_login repo = (case field repo ''owner'' of None \<Rightarrow> None | Some ob \<Rightarrow> field ob ''login'')"

definition owner_is_object :: "json \<Rightarrow> bool" where
  "owner_is_object repo = (case field repo ''owner'' of None \<Rightarrow> True | Some ob \<Rightarrow> is_obj ob)"

definition missing_or_empty :: "json option \<Rightarrow> bool" where
  "missing_or_empty v = (case v of None \<Rightarrow> True | Some x \<Rightarrow> \<not> truthy x)"

text \<open>
  The records of \<^verbatim>\<open>stats.json\<close>. A record entry is an object whose \<^verbatim>\<open>date\<close>, when present,
  is a string; \<open>has_date\<close> is the test of line 205; \<open>set_total\<close> is the assignment of
  line 206 and \<open>new_record\<close> the object appended by line 211.
\<close>

fun is_list :: "json \<Rightarrow> bool" where
  "is_list (JList xs) = True"
| "is_list _ = False"

definition record_entry :: "json \<Rightarrow> bool" where
  "record_entry x = (is_obj x \<and> (case field x ''date'' of None \<Rightarrow> True | Some k \<Rightarrow> is_str k))"

definition has_date :: "string \<Rightarrow> json \<Rightarrow> bool" where
  "has_date d x = (field x ''date'' = Some (JStr d))"

fun set_total :: "int \<Rightarrow> json \<Rightarrow> json" where
  "set_total v (JObj kvs) = JObj (AList.update ''total_lines'' (JInt v) kvs)"
| "set_total v x = x"

definition new_record :: "string \<Rightarrow> int \<Rightarrow> json" where
  "new_record d v = JObj [(''date'', JStr d), (''total_lines'', JInt v)]"

text \<open>
  The record list that a file holds, and the entries whose \<^verbatim>\<open>total_lines\<close> is a
  non-negative integer. An event touches the store when it opens or writes the file.
\<close>

fun records_of :: "stats_file \<Rightarrow> json list" where
  "records_of (Content (JList xs)) = xs"
| "records_of _ = []"

definition nonneg_total :: "json \<Rightarrow> bool" where
  "nonneg_total x = (case field x ''total_lines'' of Some (JInt n) \<Rightarrow> 0 \<le> n | _ \<Rightarrow> False)"

fun touches_stats :: "event \<Rightarrow> bool" where
  "touches_stats OpenRead = True"
| "touches_stats (WriteStats data) = True"
| "touches_stats WriteFailed = True"
| "touches_stats _ = False"

text \<open>
  The files that runs of the script produce: there is no file at first, and each run
  that ends, with or without an exception, leaves the file of the next run. Every
  environment and every starting trace is allowed.
\<close>

inductive produced :: "stats_file \<Rightarrow> bool" where
  initial: "produced Absent"
| run: "produced store \<Longrightarrow> update_stats e store tr = Some (res, store', tr') \<Longrightarrow> produced store'"

text \<open>
  An environment for the examples: the scripted service, a token, a sort that raises
  on keys that are not strings, and a disk that takes the write.
\<close>

definition example_env ::
  "json \<Rightarrow> py_error + response \<Rightarrow> py_error + response \<Rightarrow> string \<Rightarrow> env" where
  "example_env page1 freq langs d =
     \<lparr>server = scripted_service page1 freq langs, str_int = no_digits,
      sort_other = (\<lambda>xs. Inl TypeError), token = True, today = d, disk = Written\<rparr>"

text \<open>
  A second service for the examples, whose weekly statistics depend on the name of the
  repository; it has no language resource.
\<close>

definition repo_service :: "json \<Rightarrow> (json \<Rightarrow> py_error + response) \<Rightarrow> server" where
  "repo_service page1 freq h req =
     (case req of
        UserRepos page \<Rightarrow>
          Inr \<lparr>status_code = 200, body = Some (if page = 1 then page1 else JList [])\<rparr>
      | CodeFrequency owner name \<Rightarrow> freq name
      | Languages owner name \<Rightarrow> Inl RequestException)"


section \<open>The retry bound of \<^verbatim>\<open>fetch_repo_code_frequency\<close>\<close>

lemma upto_1_5: "[1..5] = [1, 2, 3, 4, 5::int]"
  by (simp add: upto.simps)

text \<open>
  C4. Against a service that answers 202 to every request for the weekly statistics of a
  repository, whatever has happened before, \<^verbatim>\<open>fetch_repo_code_frequency\<close> with its defaults
  (5 retries, 8 seconds) issues exactly five requests, sleeps 8 seconds between two
  consecutive ones (four sleeps), and returns \<open>None\<close>, the unavailable result, which is
  not the empty list \<open>Some []\<close>. The trace is the whole of what it does, so the loop
  does not go past the fifth attempt.
\<close>

theorem fetch_repo_code_frequency_always_202:
  assumes busy: "\<And>h. \<exists>resp. srv h (CodeFrequency owner name) = Inr resp \<and> status_code resp = 202"
  shows "fetch_repo_code_frequency srv owner name 5 8 tr =
           (Inr None,
            tr @ [Get (CodeFrequency owner name), Print Info 89, Sleep 8,
                  Get (CodeFrequency owner name), Print Info 89, Sleep 8,
                  Get (CodeFrequency owner name), Print Info 89, Sleep 8,
                  Get (CodeFrequency owner name), Print Info 89, Sleep 8,
                  Get (CodeFrequency owner name), Print Warn 86])"
proof -
  have again: "code_frequency_attempts srv owner name 5 8 (a # rest) h =
      code_frequency_attempts srv owner name 5 8 rest
        (h @ [Get (CodeFrequency owner name), Print Info 89, Sleep 8])"
    if "a \<noteq> 5" for h a rest
  proof -
    from busy [of h] obtain resp
      where "srv h (CodeFrequency owner name) = Inr resp" "status_code resp = 202"
      by blast
    with that show ?thesis by (simp add: session_get_def)
  qed
  have give_up: "code_frequency_attempts srv owner name 5 8 (5 # rest) h =
      (Inr None, h @ [Get (CodeFrequency owner name), Print Warn 86])" for h rest
  proof -
    from busy [of h] obtain resp
      where "srv h (CodeFrequency owner name) = Inr resp" "status_code resp = 202"
      by blast
    then show ?thesis by (simp add: session_get_def)
  qed
  show ?thesis
    unfolding fetch_repo_code_frequency_def upto_1_5
    by (simp add: again give_up del: code_frequency_attempts.simps)
qed

theorem fetch_repo_code_frequency_always_202_witness:
  "fetch_repo_code_frequency
     (scripted_service (JList []) (Inr \<lparr>status_code = 202, body = Some (JObj [])\<rparr>)
        (Inl RequestException))
     (JStr ''octocat'') (JStr ''hello'') 5 8 [] =
   (Inr None,
    [Get (CodeFrequency (JStr ''octocat'') (JStr ''hello'')), Print Info 89, Sleep 8,
     Get (CodeFrequency (JStr ''octocat'') (JStr ''hello'')), Print Info 89, Sleep 8,
     Get (CodeFrequency (JStr ''octocat'') (JStr ''hello'')), Print Info 89, Sleep 8,
     Get (CodeFrequency (JStr ''octocat'') (JStr ''hello'')), Print Info 89, Sleep 8,
     Get (CodeFrequency (JStr ''octocat'') (JStr ''hello'')), Print Warn 86])"
  using fetch_repo_code_frequency_always_202
    [of "scripted_service (JList []) (Inr \<lparr>status_code = 202, body = Some (JObj [])\<rparr>)
           (Inl RequestException)"
        "JStr ''octocat''" "JStr ''hello''" "[]"]
  by (simp add: scripted_service_def)

section \<open>The estimate from weekly samples\<close>

lemma add_week_skipped: "skipped w \<Longrightarrow> add_week si acc w = Inr acc"
  by (cases w) auto

lemma add_week_well_formed:
  "well_formed si w \<Longrightarrow> add_week si acc w = Inr (acc + net_change si w)"
  by (induction si w rule: well_formed.induct)
     (auto simp: converts_def int_of_def split: sum.splits)

lemma sum_weeks_well_formed:
  "\<forall>w\<in>set freq. well_formed si w \<or> skipped w \<Longrightarrow>
   sum_weeks si acc freq = Inr (acc + (\<Sum>w\<leftarrow>filter (well_formed si) freq. net_change si w))"
proof (induction freq arbitrary: acc)
  case Nil
  then show ?case by simp
next
  case (Cons w freq)
  then have rest: "\<forall>w\<in>set freq. well_formed si w \<or> skipped w" by simp
  show ?case
  proof (cases "well_formed si w")
    case True
    then show ?thesis using Cons.IH [OF rest] by (simp add: add_week_well_formed)
  next
    case False
    with Cons.prems have "skipped w" by simp
    then show ?thesis using False Cons.IH [OF rest] by (simp add: add_week_skipped)
  qed
qed

text \<open>
  C1, as amended. Let every sample of the list be one the guard of line 147 skips (not a
  list, or a list of fewer than three elements) or a list of exactly three elements
  whose additions and deletions \<^verbatim>\<open>int\<close> converts. Then the estimate of the repository,
  \<^verbatim>\<open>repo_total\<close> at line 160, is the sum of \<^verbatim>\<open>int(additions) - int(deletions)\<close> over the
  three-element samples, and the loop adds \<^verbatim>\<open>max(repo_total, 0)\<close> to the running total.
  The samples \<^verbatim>\<open>[[t0, 120, -30], [t1, 40, -10]]\<close> give 200.
\<close>

theorem weekly_estimate:
  assumes samples: "\<forall>w\<in>set freq. well_formed si w \<or> skipped w"
    and fetched: "fetch_repo_code_frequency srv owner name 5 8 (tr @ [Print Info 141]) =
                    (Inr (Some freq), tr')"
    and fields: "py_get repo ''owner'' (JObj []) = Inr owner_obj"
      "py_get owner_obj ''login'' (JStr []) = Inr owner"
      "py_get repo ''name'' (JStr []) = Inr name"
      "truthy owner" "truthy name"
  shows "repo_total si srv owner name (tr @ [Print Info 141]) =
           (Inr (\<Sum>w\<leftarrow>filter (well_formed si) freq. net_change si w), tr')
       \<and> count_repo si srv total_lines repo tr =
           (Inr (total_lines + max (\<Sum>w\<leftarrow>filter (well_formed si) freq. net_change si w) 0),
            tr' @ [Print Info 160])
       \<and> sum_weeks si 0
           [JList [JInt t0, JInt 120, JInt (- 30)], JList [JInt t1, JInt 40, JInt (- 10)]]
           = Inr 200"
proof -
  have est: "repo_total si srv owner name (tr @ [Print Info 141]) =
           (Inr (\<Sum>w\<leftarrow>filter (well_formed si) freq. net_change si w), tr')"
    using fetched sum_weeks_well_formed [OF samples, of 0] by (simp add: repo_total_def)
  obtain kvs where "repo = JObj kvs" using fields(1) by (cases repo) auto
  then have "count_repo si srv total_lines repo tr =
           (Inr (total_lines + max (\<Sum>w\<leftarrow>filter (well_formed si) freq. net_change si w) 0),
            tr' @ [Print Info 160])"
    using fields est by (simp add: count_repo_def)
  with est show ?thesis by simp
qed

theorem weekly_estimate_witness:
  "count_repo no_digits
      (scripted_service (JList [])
         (Inr \<lparr>status_code = 200,
               body = Some (JList [JList [JInt 1700000000, JInt 120, JInt (- 30)],
                                   JNull,
                                   JList [JInt 1700604800, JInt 40],
                                   JList [JInt 1700604800, JInt 40, JInt (- 10)]])\<rparr>)
         (Inl RequestException))
      7
      (JObj [(''full_name'', JStr ''octocat/hello''),
             (''owner'', JObj [(''login'', JStr ''octocat'')]),
             (''name'', JStr ''hello'')])
      []
    = (Inr 207,
       [Print Info 141, Get (CodeFrequency (JStr ''octocat'') (JStr ''hello'')), Print Info 160])"
proof -
  let ?freq = "[JList [JInt 1700000000, JInt 120, JInt (- 30)], JNull,
                JList [JInt 1700604800, JInt 40],
                JList [JInt 1700604800, JInt 40, JInt (- 10)]]"
  let ?srv = "scripted_service (JList []) (Inr \<lparr>status_code = 200, body = Some (JList ?freq)\<rparr>)
                (Inl RequestException)"
  have samples: "\<forall>w\<in>set ?freq. well_formed no_digits w \<or> skipped w"
    by (simp add: converts_def)
  have fetched:
    "fetch_repo_code_frequency ?srv (JStr ''octocat'') (JStr ''hello'') 5 8 ([] @ [Print Info 141])
      = (Inr (Some ?freq), [Print Info 141, Get (CodeFrequency (JStr ''octocat'') (JStr ''hello''))])"
    by (simp add: fetch_repo_code_frequency_def upto_1_5 session_get_def scripted_service_def)
  show ?thesis
    using weekly_estimate [OF samples fetched, of
        "JObj [(''full_name'', JStr ''octocat/hello''),
               (''owner'', JObj [(''login'', JStr ''octocat'')]),
               (''name'', JStr ''hello'')]"
        "JObj [(''login'', JStr ''octocat'')]" 7]
    by (simp add: int_of_def converts_def)
qed

text \<open>
  The claim as first stated ranges over every list of samples. A sample of three elements
  whose additions is \<^verbatim>\<open>null\<close> passes the guard and \<^verbatim>\<open>int(None)\<close> raises \<^verbatim>\<open>TypeError\<close>: no
  estimate is produced for the list.
\<close>

theorem weekly_estimate_counterexample:
  "sum_weeks no_digits 0 [JList [JInt 1700000000, JNull, JInt 5]] = Inl TypeError"
  by simp

section \<open>A sample of more than three elements\<close>

text \<open>
  C3. The guard of line 147 lets a list of four elements through, and the unpacking of
  line 149 into three names raises \<^verbatim>\<open>ValueError\<close> on it. The sum over the samples is not
  produced, and neither is the total of \<^verbatim>\<open>compute_total_lines\<close>: the exception leaves the
  loop over the repositories.
\<close>

theorem unpack_four_elements:
  "sum_weeks no_digits 0
     [JList [JInt 1700000000, JInt 120, JInt (- 30)],
      JList [JInt 1700604800, JInt 5, JInt (- 2), JInt 0]] = Inl ValueError
   \<and> fst (compute_total_lines no_digits
       (scripted_service (JList [])
         (Inr \<lparr>status_code = 200,
               body = Some (JList [JList [JInt 1700000000, JInt 120, JInt (- 30)],
                                   JList [JInt 1700604800, JInt 5, JInt (- 2), JInt 0]])\<rparr>)
         (Inl RequestException))
       [JObj [(''full_name'', JStr ''octocat/hello''),
              (''owner'', JObj [(''login'', JStr ''octocat'')]),
              (''name'', JStr ''hello'')]]
       []) = Inl ValueError"
  by (simp add: compute_total_lines_def count_repo_def repo_total_def
      fetch_repo_code_frequency_def upto_1_5 session_get_def scripted_service_def)

section \<open>The estimate from language byte counts\<close>

lemma sdiv_nonneg: "0 \<le> (k::int) \<Longrightarrow> k sdiv 50 = k div 50"
  by (simp add: signed_divide_int_def sgn_if)

text \<open>
  C2. On the fallback path (the weekly samples are unavailable and the language request
  gives a mapping) the estimate of the repository is the sum of all byte counts divided
  by 50 with integer division that rounds toward zero (\<open>sdiv\<close>, the truncated quotient),
  and it is never negative. Byte counts are sizes, so the mappings are those whose counts
  are not negative; on them the floor division \<^verbatim>\<open>//\<close> of line 157 is the truncated quotient.
  The mapping \<^verbatim>\<open>{"X": 1000, "Y": 530}\<close> gives 30.
\<close>

theorem languages_fallback_estimate:
  assumes unavailable: "fetch_repo_code_frequency srv owner name 5 8 tr = (Inr None, tr1)"
    and mapping: "fetch_repo_languages si srv owner name tr1 = (Inr (Some langs), tr2)"
    and counts: "\<forall>n\<in>set (map snd langs). 0 \<le> n"
  shows "fst (repo_total si srv owner name tr) = Inr (sum_list (map snd langs) sdiv 50)
       \<and> 0 \<le> sum_list (map snd langs) sdiv 50
       \<and> sum_list (map snd langs) sdiv 50 = sum_list (map snd langs) div 50
       \<and> languages_estimate [(''X'', 1000), (''Y'', 530)] = 30"
proof -
  have floor: "fst (repo_total si srv owner name tr) = Inr (sum_list (map snd langs) div 50)"
    using unavailable mapping by (simp add: repo_total_def languages_estimate_def)
  have "0 \<le> sum_list (map snd langs)"
    using counts by (intro sum_list_nonneg) auto
  then have trunc: "sum_list (map snd langs) sdiv 50 = sum_list (map snd langs) div 50"
    and sign: "0 \<le> sum_list (map snd langs) div 50"
    by (simp_all add: sdiv_nonneg pos_imp_zdiv_nonneg_iff)
  have "languages_estimate [(''X'', 1000), (''Y'', 530)] = 30"
    by (simp add: languages_estimate_def)
  with floor trunc sign show ?thesis by simp
qed

theorem languages_fallback_estimate_witness:
  "fst (repo_total no_digits
     (scripted_service (JList []) (Inr \<lparr>status_code = 404, body = None\<rparr>)
        (Inr \<lparr>status_code = 200,
              body = Some (JObj [(''Python'', JInt 1000), (''Shell'', JInt 530)])\<rparr>))
     (JStr ''octocat'') (JStr ''hello'') []) = Inr 30
   \<and> sum_list (map snd [(''Python'', 1000 :: int), (''Shell'', 530)]) sdiv 50 = 30"
proof -
  let ?srv = "scripted_service (JList []) (Inr \<lparr>status_code = 404, body = None\<rparr>)
        (Inr \<lparr>status_code = 200,
              body = Some (JObj [(''Python'', JInt 1000), (''Shell'', JInt 530)])\<rparr>)"
  let ?freq = "Get (CodeFrequency (JStr ''octocat'') (JStr ''hello''))"
  let ?lang = "Get (Languages (JStr ''octocat'') (JStr ''hello''))"
  have unavailable:
    "fetch_repo_code_frequency ?srv (JStr ''octocat'') (JStr ''hello'') 5 8 [] =
       (Inr None, [?freq, Print Warn 99])"
    by (simp add: fetch_repo_code_frequency_def upto_1_5 session_get_def scripted_service_def)
  have mapping:
    "fetch_repo_languages no_digits ?srv (JStr ''octocat'') (JStr ''hello'') [?freq, Print Warn 99] =
       (Inr (Some [(''Python'', 1000), (''Shell'', 530)]), [?freq, Print Warn 99, ?lang])"
    by (simp add: fetch_repo_languages_def session_get_def scripted_service_def)
  have counts: "\<forall>n\<in>set (map snd [(''Python'', 1000 :: int), (''Shell'', 530)]). 0 \<le> n"
    by simp
  show ?thesis
    using languages_fallback_estimate [OF unavailable mapping counts]
    by (simp add: signed_divide_int_def)
qed

section \<open>Repositories without an owner login or a name\<close>

text \<open>
  C10, as amended. Let the descriptor be an object whose \<^verbatim>\<open>owner\<close>, when present, is an
  object. If the owner login or the name is missing or empty, the iteration leaves the
  running total and the trace as they were: nothing is added, no request is issued and
  nothing is printed.
\<close>

theorem count_repo_skips:
  assumes "is_obj repo" and "owner_is_object repo"
    and "missing_or_empty (owner_login repo) \<or> missing_or_empty (field repo ''name'')"
  shows "count_repo si srv total_lines repo tr = (Inr total_lines, tr)"
proof -
  obtain kvs where repo: "repo = JObj kvs" using assms(1) by (cases repo) auto
  show ?thesis
  proof (cases "map_of kvs ''owner''")
    case None
    then show ?thesis using repo
      by (simp add: count_repo_def split: option.splits)
  next
    case (Some ob)
    with assms(2) repo obtain okvs where ob: "ob = JObj okvs"
      by (cases ob) (auto simp: owner_is_object_def)
    show ?thesis using assms(3) repo Some ob
      by (auto simp: count_repo_def owner_login_def missing_or_empty_def split: option.splits)
  qed
qed

theorem count_repo_skips_witness:
  "count_repo no_digits (scripted_service (JList []) (Inl RequestException) (Inl RequestException))
     12 (JObj [(''full_name'', JStr ''octocat/''), (''owner'', JObj [(''login'', JStr ''octocat'')]),
               (''name'', JStr '''')]) [Print Info 38]
   = (Inr 12, [Print Info 38])"
  using count_repo_skips [of
      "JObj [(''full_name'', JStr ''octocat/''), (''owner'', JObj [(''login'', JStr ''octocat'')]),
             (''name'', JStr '''')]"
      no_digits "scripted_service (JList []) (Inl RequestException) (Inl RequestException)"
      12 "[Print Info 38]"]
  by (simp add: owner_is_object_def missing_or_empty_def)

text \<open>
  The claim as first stated covers every descriptor with an empty name. With
  \<^verbatim>\<open>"owner": null\<close> line 136 calls \<^verbatim>\<open>get\<close> on \<^verbatim>\<open>None\<close> and raises before the name is looked at.
\<close>

theorem count_repo_skips_counterexample:
  "count_repo no_digits (scripted_service (JList []) (Inl RequestException) (Inl RequestException))
     12 (JObj [(''full_name'', JStr ''octocat/''), (''owner'', JNull), (''name'', JStr '''')]) []
   = (Inl AttributeError, [])"
  by (simp add: count_repo_def)

section \<open>Loading the stats file\<close>

text \<open>
  C8. \<^verbatim>\<open>load_existing_stats\<close> returns the empty list when \<^verbatim>\<open>stats.json\<close> does not exist
  (line 169 prints an information). It returns the empty list as well, after a printed
  diagnostic, when the file exists but cannot be read or is not JSON (the handler of
  line 179 prints the line tagged \<^verbatim>\<open>[error]\<close>) and when its content is not a list (line 177
  prints the line tagged \<^verbatim>\<open>[warn]\<close>); the content is dropped. Whatever the file, the
  function returns a list and raises nothing.
\<close>

theorem load_existing_stats_empty:
  "load_existing_stats Absent tr = (Inr [], tr @ [Print Info 169])
   \<and> load_existing_stats Unreadable tr = (Inr [], tr @ [OpenRead, Print Error 180])
   \<and> load_existing_stats Undecodable tr = (Inr [], tr @ [OpenRead, Print Error 180])
   \<and> (\<not> is_list data \<longrightarrow>
        load_existing_stats (Content data) tr = (Inr [], tr @ [OpenRead, Print Warn 177]))
   \<and> (\<exists>records. fst (load_existing_stats store tr) = Inr records)"
proof -
  have "\<not> is_list data \<Longrightarrow>
      load_existing_stats (Content data) tr = (Inr [], tr @ [OpenRead, Print Warn 177])"
    by (cases data) (simp_all add: load_existing_stats_def)
  moreover have "\<exists>records. fst (load_existing_stats store tr) = Inr records"
    by (cases store) (auto simp: load_existing_stats_def split: json.splits)
  ultimately show ?thesis by (simp add: load_existing_stats_def)
qed

theorem load_existing_stats_empty_witness:
  "load_existing_stats (Content (JObj [(''date'', JStr ''2024-01-01''), (''total_lines'', JInt 500)])) []
     = (Inr [], [OpenRead, Print Warn 177])"
  using load_existing_stats_empty
    [of "[]" "JObj [(''date'', JStr ''2024-01-01''), (''total_lines'', JInt 500)]" Absent]
  by simp

section \<open>Overwrite or append, then sort\<close>

lemma record_entry_obj: "record_entry x \<Longrightarrow> is_obj x"
  by (simp add: record_entry_def)

lemma has_date_key: "has_date d x \<Longrightarrow> date_key x = d"
  by (cases x) (auto simp: has_date_def date_key_def)

lemma overwrite_today_miss:
  "\<forall>x\<in>set xs. is_obj x \<Longrightarrow> \<forall>x\<in>set xs. \<not> has_date d x \<Longrightarrow>
   overwrite_today d v xs = Inr (xs, False)"
proof (induction xs)
  case Nil
  then show ?case by simp
next
  case (Cons x xs)
  then obtain kvs where "x = JObj kvs" by (cases x) auto
  with Cons show ?case by (auto simp: has_date_def split: option.splits)
qed

lemma overwrite_today_hit:
  "\<forall>x\<in>set pre. is_obj x \<Longrightarrow> \<forall>x\<in>set pre. \<not> has_date d x \<Longrightarrow> is_obj e \<Longrightarrow> has_date d e \<Longrightarrow>
   overwrite_today d v (pre @ e # post) = Inr (pre @ set_total v e # post, True)"
proof (induction pre)
  case Nil
  then obtain kvs where "e = JObj kvs" by (cases e) auto
  with Nil show ?case by (auto simp: has_date_def)
next
  case (Cons x pre)
  then obtain kvs where "x = JObj kvs" by (cases x) auto
  with Cons show ?case by (auto simp: has_date_def split: option.splits)
qed

lemma date_keys_records:
  "\<forall>x\<in>set xs. record_entry x \<Longrightarrow> date_keys xs = Inr (map (\<lambda>x. JStr (date_key x)) xs)"
proof (induction xs)
  case Nil
  then show ?case by simp
next
  case (Cons x xs)
  then obtain kvs where x: "x = JObj kvs" by (cases x) (auto simp: record_entry_def)
  from Cons.prems x have "py_get x ''date'' (JStr []) = Inr (JStr (date_key x))"
    by (cases "map_of kvs ''date''"; cases "the (map_of kvs ''date'')")
       (auto simp: record_entry_def date_key_def)
  with Cons show ?case by simp
qed

lemma sort_key_short: "length xs \<le> 1 \<Longrightarrow> sort_key f xs = xs"
  by (cases xs) auto

lemma sort_by_date_records:
  assumes "\<forall>x\<in>set xs. record_entry x"
  shows "sort_by_date so xs = Inr (sort_key date_key xs)"
  using date_keys_records [OF assms]
  by (simp add: sort_by_date_def sort_key_short list_all_iff)

lemma set_total_record: "record_entry x \<Longrightarrow> record_entry (set_total v x)"
  by (cases x) (auto simp: record_entry_def update_conv')

lemma set_total_has_date: "has_date d (set_total v x) = has_date d x"
  by (cases x) (auto simp: has_date_def update_conv')

lemma set_total_field: "is_obj x \<Longrightarrow> field (set_total v x) ''total_lines'' = Some (JInt v)"
  by (cases x) (auto simp: update_conv')

lemma set_total_twice: "set_total v (set_total v x) = set_total v x"
  by (cases x) (auto simp: update_conv' intro: update_triv)

lemma new_record_props:
  "record_entry (new_record d v)" "has_date d (new_record d v)"
  "field (new_record d v) ''total_lines'' = Some (JInt v)"
  "set_total v (new_record d v) = new_record d v"
  by (simp_all add: new_record_def record_entry_def has_date_def)

text \<open>What lines 203--214 compute on record entries.\<close>

lemma upsert_records:
  assumes recs: "\<forall>x\<in>set xs. record_entry x"
  shows "(\<exists>pre e post. xs = pre @ e # post \<and> has_date d e \<and> (\<forall>x\<in>set pre. \<not> has_date d x)
            \<and> upsert so xs d v = Inr (sort_key date_key (pre @ set_total v e # post)))
       \<or> ((\<forall>x\<in>set xs. \<not> has_date d x)
            \<and> upsert so xs d v = Inr (sort_key date_key (xs @ [new_record d v])))"
proof (cases "\<exists>x\<in>set xs. has_date d x")
  case True
  then obtain pre e post where split: "xs = pre @ e # post" "has_date d e"
      "\<forall>x\<in>set pre. \<not> has_date d x"
    using split_list_first_prop [of xs "has_date d"] by blast
  from recs split(1) have objs: "\<forall>x\<in>set pre. is_obj x" "is_obj e"
    by (auto dest: record_entry_obj)
  have "\<forall>x\<in>set (pre @ set_total v e # post). record_entry x"
    using recs split(1) by (auto intro: set_total_record)
  then have "upsert so xs d v = Inr (sort_key date_key (pre @ set_total v e # post))"
    using overwrite_today_hit [OF objs(1) split(3) objs(2) split(2), of v post] split(1)
    by (simp add: upsert_def sort_by_date_records)
  with split show ?thesis by blast
next
  case False
  then have none: "\<forall>x\<in>set xs. \<not> has_date d x" by blast
  from recs have objs: "\<forall>x\<in>set xs. is_obj x" by (auto dest: record_entry_obj)
  have "\<forall>x\<in>set (xs @ [new_record d v]). record_entry x"
    using recs by (auto simp: new_record_props)
  then have "upsert so xs d v = Inr (sort_key date_key (xs @ [new_record d v]))"
    using overwrite_today_miss [OF objs none, of v]
    by (simp add: upsert_def sort_by_date_records new_record_def)
  with none show ?thesis by blast
qed


text \<open>
  C5. Let the existing list consist of record entries (objects whose date, if any, is
  a string). Then lines 203--214 return a list that is sorted ascending by the date
  strings, whatever the order before. If an entry of the given date exists, the first
  such entry has its \<^verbatim>\<open>total_lines\<close> overwritten, nothing is appended and the length is
  unchanged: the result is a rearrangement of the list with that entry updated.
  Otherwise the result is a rearrangement of the list with the new record
  \<^verbatim>\<open>{date, total_lines}\<close> appended.
\<close>

theorem upsert_overwrites_or_appends_sorted:
  assumes recs: "\<forall>x\<in>set xs. record_entry x"
  shows "\<exists>ys. upsert so xs d v = Inr ys \<and> sorted (map date_key ys) \<and>
           (if \<exists>x\<in>set xs. has_date d x
            then length ys = length xs \<and>
                 (\<exists>pre e post. xs = pre @ e # post \<and> has_date d e \<and>
                    (\<forall>x\<in>set pre. \<not> has_date d x) \<and>
                    mset ys = mset (pre @ set_total v e # post))
            else mset ys = mset (xs @ [new_record d v]))"
  using upsert_records [OF recs, of d so v]
proof (elim disjE exE conjE)
  fix pre e post
  assume split: "xs = pre @ e # post" "has_date d e" "\<forall>x\<in>set pre. \<not> has_date d x"
    and res: "upsert so xs d v = Inr (sort_key date_key (pre @ set_total v e # post))"
  let ?ys = "sort_key date_key (pre @ set_total v e # post)"
  have "\<exists>x\<in>set xs. has_date d x" using split by auto
  moreover have "length ?ys = length xs" using split(1) by simp
  moreover have "mset ?ys = mset (pre @ set_total v e # post)" by simp
  moreover have "sorted (map date_key ?ys)" by (rule sorted_sort_key)
  ultimately show ?thesis using res split by (intro exI [of _ ?ys]) auto
next
  assume none: "\<forall>x\<in>set xs. \<not> has_date d x"
    and res: "upsert so xs d v = Inr (sort_key date_key (xs @ [new_record d v]))"
  let ?ys = "sort_key date_key (xs @ [new_record d v])"
  have "sorted (map date_key ?ys)" by (rule sorted_sort_key)
  moreover have "mset ?ys = mset (xs @ [new_record d v])" by simp
  ultimately show ?thesis using res none by (intro exI [of _ ?ys]) auto
qed

lemma overwrite_today_again:
  "\<forall>x\<in>set ys. is_obj x \<Longrightarrow> filter (has_date d) ys = e # rest \<Longrightarrow> set_total v e = e \<Longrightarrow>
   overwrite_today d v ys = Inr (ys, True)"
proof (induction ys)
  case Nil
  then show ?case by simp
next
  case (Cons y ys)
  then obtain kvs where y: "y = JObj kvs" by (cases y) auto
  show ?case
  proof (cases "has_date d y")
    case True
    with Cons.prems have "y = e" by simp
    with Cons.prems(3) True y show ?thesis by (auto simp: has_date_def)
  next
    case False
    with Cons y show ?thesis by (auto simp: has_date_def split: option.splits)
  qed
qed

lemma filter_has_date_sort:
  "filter (has_date d) (sort_key date_key zs) = filter (has_date d) zs"
proof -
  have "filter (has_date d) ws = filter (has_date d) (filter (\<lambda>y. date_key y = d) ws)" for ws
    by (induction ws) (auto dest: has_date_key)
  then show ?thesis by (metis sort_key_stable)
qed

lemma upsert_again:
  assumes recs: "\<forall>x\<in>set zs. record_entry x"
    and first: "filter (has_date d) zs = e # rest" "set_total v e = e"
  shows "upsert so (sort_key date_key zs) d v = Inr (sort_key date_key zs)"
proof -
  let ?ys = "sort_key date_key zs"
  from recs have recs': "\<forall>x\<in>set ?ys. record_entry x" by simp
  then have objs: "\<forall>x\<in>set ?ys. is_obj x" by (auto dest: record_entry_obj)
  have "filter (has_date d) ?ys = e # rest" using first(1) by (simp add: filter_has_date_sort)
  from overwrite_today_again [OF objs this first(2)]
  have "upsert so ?ys d v = sort_by_date so ?ys" by (simp add: upsert_def)
  also have "\<dots> = Inr (sort_key date_key ?ys)" using recs' by (rule sort_by_date_records)
  also have "sort_key date_key ?ys = ?ys" by (simp add: sort_key_id_if_sorted)
  finally show ?thesis .
qed

lemma upsert_twice:
  assumes recs: "\<forall>x\<in>set xs. record_entry x"
    and once: "length (filter (has_date d) xs) \<le> 1"
  shows "\<exists>ys. upsert so xs d v = Inr ys \<and> upsert so ys d v = Inr ys \<and>
           (\<exists>e. filter (has_date d) ys = [e] \<and> field e ''total_lines'' = Some (JInt v))"
  using upsert_records [OF recs, of d so v]
proof (elim disjE exE conjE)
  fix pre e post
  assume split: "xs = pre @ e # post" "has_date d e" "\<forall>x\<in>set pre. \<not> has_date d x"
    and res: "upsert so xs d v = Inr (sort_key date_key (pre @ set_total v e # post))"
  let ?zs = "pre @ set_total v e # post"
  have pre: "filter (has_date d) pre = []" using split(3) by simp
  with once split(1,2) have post: "filter (has_date d) post = []" by simp
  have one: "filter (has_date d) ?zs = [set_total v e]"
    using pre post split(2) by (simp add: set_total_has_date)
  have recs': "\<forall>x\<in>set ?zs. record_entry x" using recs split(1) by (auto intro: set_total_record)
  have "is_obj e" using recs split(1) by (auto dest: record_entry_obj)
  then have "field (set_total v e) ''total_lines'' = Some (JInt v)" by (rule set_total_field)
  moreover have "upsert so (sort_key date_key ?zs) d v = Inr (sort_key date_key ?zs)"
    using recs' one by (rule upsert_again) (rule set_total_twice)
  moreover have "filter (has_date d) (sort_key date_key ?zs) = [set_total v e]"
    using one by (simp add: filter_has_date_sort)
  ultimately show ?thesis using res by blast
next
  assume none: "\<forall>x\<in>set xs. \<not> has_date d x"
    and res: "upsert so xs d v = Inr (sort_key date_key (xs @ [new_record d v]))"
  let ?zs = "xs @ [new_record d v]"
  have one: "filter (has_date d) ?zs = [new_record d v]"
    using none by (simp add: new_record_props)
  have recs': "\<forall>x\<in>set ?zs. record_entry x" using recs by (auto simp: new_record_props)
  have "upsert so (sort_key date_key ?zs) d v = Inr (sort_key date_key ?zs)"
    using recs' one by (rule upsert_again) (rule new_record_props)
  moreover have "filter (has_date d) (sort_key date_key ?zs) = [new_record d v]"
    using one by (simp add: filter_has_date_sort)
  ultimately show ?thesis using res new_record_props(3) by blast
qed


theorem upsert_overwrites_or_appends_sorted_witness:
  "(\<exists>ys. upsert (\<lambda>xs. Inl TypeError)
            [JObj [(''date'', JStr ''2024-01-02''), (''total_lines'', JInt 600)],
             JObj [(''date'', JStr ''2024-01-01''), (''total_lines'', JInt 500)]]
            ''2024-01-03'' 900 = Inr ys
         \<and> sorted (map date_key ys)
         \<and> mset ys = mset [JObj [(''date'', JStr ''2024-01-02''), (''total_lines'', JInt 600)],
                            JObj [(''date'', JStr ''2024-01-01''), (''total_lines'', JInt 500)],
                            new_record ''2024-01-03'' 900])
   \<and> upsert (\<lambda>xs. Inl TypeError)
        [JObj [(''date'', JStr ''2024-01-02''), (''total_lines'', JInt 600)],
         JObj [(''date'', JStr ''2024-01-01''), (''total_lines'', JInt 500)]]
        ''2024-01-03'' 900
      = Inr [JObj [(''date'', JStr ''2024-01-01''), (''total_lines'', JInt 500)],
             JObj [(''date'', JStr ''2024-01-02''), (''total_lines'', JInt 600)],
             JObj [(''date'', JStr ''2024-01-03''), (''total_lines'', JInt 900)]]
   \<and> upsert (\<lambda>xs. Inl TypeError)
        [JObj [(''date'', JStr ''2024-01-01''), (''total_lines'', JInt 500)]] ''2024-01-01'' 700
      = Inr [JObj [(''date'', JStr ''2024-01-01''), (''total_lines'', JInt 700)]]"
proof -
  have run: "upsert (\<lambda>xs. Inl TypeError)
        [JObj [(''date'', JStr ''2024-01-02''), (''total_lines'', JInt 600)],
         JObj [(''date'', JStr ''2024-01-01''), (''total_lines'', JInt 500)]]
        ''2024-01-03'' 900
      = Inr [JObj [(''date'', JStr ''2024-01-01''), (''total_lines'', JInt 500)],
             JObj [(''date'', JStr ''2024-01-02''), (''total_lines'', JInt 600)],
             JObj [(''date'', JStr ''2024-01-03''), (''total_lines'', JInt 900)]]"
    by code_simp
  have over: "upsert (\<lambda>xs. Inl TypeError)
        [JObj [(''date'', JStr ''2024-01-01''), (''total_lines'', JInt 500)]] ''2024-01-01'' 700
      = Inr [JObj [(''date'', JStr ''2024-01-01''), (''total_lines'', JInt 700)]]"
    by code_simp
  show ?thesis
    using upsert_overwrites_or_appends_sorted
      [of "[JObj [(''date'', JStr ''2024-01-02''), (''total_lines'', JInt 600)],
            JObj [(''date'', JStr ''2024-01-01''), (''total_lines'', JInt 500)]]"
          "\<lambda>xs. Inl TypeError" "''2024-01-03''" 900]
      run over
    by (simp add: record_entry_def has_date_def new_record_def)
qed

section \<open>The run\<close>

lemmas run_defs =
  update_stats_def example_env_def get_session_def fetch_all_repos_def fetch_pages.simps
  session_get_def scripted_service_def compute_total_lines_def count_repo_def repo_total_def
  fetch_repo_code_frequency_def upto_1_5 fetch_repo_languages_def languages_estimate_def
  load_existing_stats_def upsert_def sort_by_date_def date_key_def


text \<open>The listing only issues requests and prints.\<close>

lemma fetch_pages_trace:
  assumes "fetch_pages srv page repos tr = Some y"
  shows "\<exists>evs. snd y = tr @ evs \<and> \<not> list_ex touches_stats evs"
proof (rule fetch_pages.raw_induct
    [where P = "\<lambda>srv page repos tr y. \<exists>evs. snd y = tr @ evs \<and> \<not> list_ex touches_stats evs",
      OF _ assms], goal_cases)
  case (1 loop srv page repos tr y)
  obtain reply tr1 where got: "session_get srv (UserRepos page) tr = (reply, tr1)"
    by (cases "session_get srv (UserRepos page) tr")
  then have tr1: "tr1 = tr @ [Get (UserRepos page)]" by (simp add: session_get_def)
  show ?case
  proof (cases reply)
    case (Inl err)
    with 1(2) got tr1 show ?thesis by auto
  next
    case (Inr resp)
    show ?thesis
    proof (cases "status_code resp \<noteq> 200")
      case True
      with 1(2) got tr1 Inr show ?thesis by auto
    next
      case ok: False
      show ?thesis
      proof (cases "body resp")
        case None
        with 1(2) got tr1 Inr ok show ?thesis by auto
      next
        case (Some batch)
        show ?thesis
        proof (cases "truthy batch")
          case False
          with 1(2) got tr1 Inr ok Some show ?thesis by auto
        next
          case True
          show ?thesis
          proof (cases "py_extend repos batch")
            case (Inl err)
            with 1(2) got tr1 Inr ok Some True show ?thesis by auto
          next
            case more: (Inr repos')
            with 1(2) got Inr ok Some True
            have "loop srv (page + 1) repos' (tr1 @ [Print Info 58]) = Some y" by simp
            from 1(1) [OF this] obtain evs
              where "snd y = (tr1 @ [Print Info 58]) @ evs" "\<not> list_ex touches_stats evs"
              by blast
            then have "snd y = tr @ ([Get (UserRepos page), Print Info 58] @ evs)
                \<and> \<not> list_ex touches_stats ([Get (UserRepos page), Print Info 58] @ evs)"
              using tr1 by simp
            then show ?thesis by blast
          qed
        qed
      qed
    qed
  qed
qed

lemma fetch_all_repos_trace:
  assumes "fetch_all_repos srv tr = Some (r, tr')"
  shows "\<exists>evs. tr' = tr @ evs \<and> \<not> list_ex touches_stats evs"
proof -
  from assms obtain y where pages: "fetch_pages srv 1 [] (tr @ [Print Info 38]) = Some y"
    by (auto simp: fetch_all_repos_def split: option.splits)
  from fetch_pages_trace [OF this] obtain evs
    where evs: "snd y = (tr @ [Print Info 38]) @ evs" "\<not> list_ex touches_stats evs"
    by blast
  from assms pages have "tr' = snd y \<or> tr' = snd y @ [Print Info 62]"
    by (auto simp: fetch_all_repos_def split: prod.splits sum.splits)
  then show ?thesis
  proof
    assume "tr' = snd y"
    with evs have "tr' = tr @ (Print Info 38 # evs) \<and> \<not> list_ex touches_stats (Print Info 38 # evs)"
      by simp
    then show ?thesis by blast
  next
    assume "tr' = snd y @ [Print Info 62]"
    with evs have "tr' = tr @ (Print Info 38 # evs @ [Print Info 62])
        \<and> \<not> list_ex touches_stats (Print Info 38 # evs @ [Print Info 62])"
      by simp
    then show ?thesis by blast
  qed
qed

text \<open>
  C9, as amended. When the list of owned non-fork repositories is empty, \<^verbatim>\<open>update_stats\<close>
  prints the warning of line 194 and returns; the file is as it was, and nothing the run
  has done opens or writes it. When the list is not empty and the run returns normally,
  the file has been written. So among the runs that return normally the empty list is
  the only one that leaves the store unwritten; a run that an exception ends is not
  covered.
\<close>

theorem update_stats_no_repos:
  assumes listed: "fetch_all_repos (server e) (get_session (token e) tr) = Some (Inr repos, tr1)"
  shows "(repos = [] \<longrightarrow>
            update_stats e store tr = Some (Inr (), store, tr1 @ [Print Warn 194])
            \<and> (\<exists>evs. tr1 @ [Print Warn 194] = tr @ evs \<and> \<not> list_ex touches_stats evs))
       \<and> (repos \<noteq> [] \<longrightarrow>
            (\<forall>store' tr'. update_stats e store tr = Some (Inr (), store', tr') \<longrightarrow>
               (\<exists>records. store' = Content (JList records) \<and> WriteStats records \<in> set tr')))"
proof (intro conjI impI allI)
  assume "repos = []"
  with listed show "update_stats e store tr = Some (Inr (), store, tr1 @ [Print Warn 194])"
    by (simp add: update_stats_def)
next
  from fetch_all_repos_trace [OF listed] obtain evs
    where evs: "tr1 = get_session (token e) tr @ evs" "\<not> list_ex touches_stats evs"
    by blast
  let ?all = "(if token e then [] else [Print Warn 25]) @ evs @ [Print Warn 194]"
  have "tr1 @ [Print Warn 194] = tr @ ?all \<and> \<not> list_ex touches_stats ?all"
    using evs by (simp add: get_session_def)
  then show "\<exists>evs. tr1 @ [Print Warn 194] = tr @ evs \<and> \<not> list_ex touches_stats evs"
    by blast
next
  fix store' tr'
  assume "repos \<noteq> []" and "update_stats e store tr = Some (Inr (), store', tr')"
  with listed show "\<exists>records. store' = Content (JList records) \<and> WriteStats records \<in> set tr'"
    by (cases "disk e") (auto simp: update_stats_def split: prod.splits sum.splits)
qed


theorem update_stats_no_repos_witness:
  "update_stats
     (example_env (JList [JObj [(''full_name'', JStr ''octocat/fork''), (''fork'', JBool True)]])
        (Inl RequestException) (Inl RequestException) ''2024-01-02'')
     (Content (JList [JObj [(''date'', JStr ''2024-01-01''), (''total_lines'', JInt 500)]])) []
   = Some (Inr (),
           Content (JList [JObj [(''date'', JStr ''2024-01-01''), (''total_lines'', JInt 500)]]),
           [Print Info 38, Get (UserRepos 1), Print Info 58, Get (UserRepos 2), Print Info 62,
            Print Warn 194])
   \<and> (\<exists>records.
        fst (snd (the (update_stats
          (example_env
             (JList [JObj [(''full_name'', JStr ''octocat/hello''), (''fork'', JBool False),
                           (''owner'', JObj [(''login'', JStr ''octocat'')]),
                           (''name'', JStr ''hello'')]])
             (Inr \<lparr>status_code = 204, body = None\<rparr>) (Inl RequestException) ''2024-01-02'')
          Absent []))) = Content (JList records))"
proof -
  let ?fork = "example_env (JList [JObj [(''full_name'', JStr ''octocat/fork''), (''fork'', JBool True)]])
        (Inl RequestException) (Inl RequestException) ''2024-01-02''"
  let ?own = "example_env
             (JList [JObj [(''full_name'', JStr ''octocat/hello''), (''fork'', JBool False),
                           (''owner'', JObj [(''login'', JStr ''octocat'')]),
                           (''name'', JStr ''hello'')]])
             (Inr \<lparr>status_code = 204, body = None\<rparr>) (Inl RequestException) ''2024-01-02''"
  have none: "fetch_all_repos (server ?fork) (get_session (token ?fork) []) =
      Some (Inr [], [Print Info 38, Get (UserRepos 1), Print Info 58, Get (UserRepos 2),
                     Print Info 62])"
    by (simp add: run_defs)
  have one: "fetch_all_repos (server ?own) (get_session (token ?own) []) =
      Some (Inr [JObj [(''full_name'', JStr ''octocat/hello''), (''fork'', JBool False),
                       (''owner'', JObj [(''login'', JStr ''octocat'')]),
                       (''name'', JStr ''hello'')]],
            [Print Info 38, Get (UserRepos 1), Print Info 58, Get (UserRepos 2), Print Info 62])"
    by (simp add: run_defs)
  have ran: "update_stats ?own Absent [] =
      Some (Inr (), Content (JList [JObj [(''date'', JStr ''2024-01-02''), (''total_lines'', JInt 0)]]),
            [Print Info 38, Get (UserRepos 1), Print Info 58, Get (UserRepos 2), Print Info 62,
             Print Info 141, Get (CodeFrequency (JStr ''octocat'') (JStr ''hello'')),
             Print Warn 95, Print Info 160, Print Info 163, Print Info 169,
             WriteStats [JObj [(''date'', JStr ''2024-01-02''), (''total_lines'', JInt 0)]],
             Print Info 187])"
    by (simp add: run_defs)
  show ?thesis
    using update_stats_no_repos [OF none,
        of "Content (JList [JObj [(''date'', JStr ''2024-01-01''), (''total_lines'', JInt 500)]])"]
      update_stats_no_repos [OF one, of Absent] ran
    by simp
qed

text \<open>
  The claim as first stated makes the empty list the only condition that aborts the run.
  No call of the script is guarded, so a request that raises (here the one for the weekly
  statistics of the only repository) ends the run as well, the file unwritten, though
  the list of repositories is not empty.
\<close>

theorem update_stats_no_repos_counterexample:
  "fetch_all_repos
     (scripted_service
        (JList [JObj [(''full_name'', JStr ''octocat/hello''), (''fork'', JBool False),
                      (''owner'', JObj [(''login'', JStr ''octocat'')]),
                      (''name'', JStr ''hello'')]])
        (Inl RequestException) (Inl RequestException)) []
   = Some (Inr [JObj [(''full_name'', JStr ''octocat/hello''), (''fork'', JBool False),
                      (''owner'', JObj [(''login'', JStr ''octocat'')]),
                      (''name'', JStr ''hello'')]],
           [Print Info 38, Get (UserRepos 1), Print Info 58, Get (UserRepos 2), Print Info 62])
   \<and> update_stats
       (example_env
          (JList [JObj [(''full_name'', JStr ''octocat/hello''), (''fork'', JBool False),
                        (''owner'', JObj [(''login'', JStr ''octocat'')]),
                        (''name'', JStr ''hello'')]])
          (Inl RequestException) (Inl RequestException) ''2024-01-02'')
       (Content (JList [JObj [(''date'', JStr ''2024-01-01''), (''total_lines'', JInt 500)]])) []
     = Some (Inl RequestException,
             Content (JList [JObj [(''date'', JStr ''2024-01-01''), (''total_lines'', JInt 500)]]),
             [Print Info 38, Get (UserRepos 1), Print Info 58, Get (UserRepos 2), Print Info 62,
              Print Info 141, Get (CodeFrequency (JStr ''octocat'') (JStr ''hello''))])"
  by (simp add: run_defs)


section \<open>What every run keeps\<close>

lemma count_repo_adds:
  assumes "count_repo si srv total_lines repo tr = (Inr total_lines', tr')"
  shows "total_lines' = total_lines \<and> tr' = tr
       \<or> (\<exists>owner name estimate tr1.
             repo_total si srv owner name (tr @ [Print Info 141]) = (Inr estimate, tr1)
             \<and> total_lines' = total_lines + max estimate 0 \<and> tr' = tr1 @ [Print Info 160])"
  using assms
  by (auto simp: count_repo_def split: sum.splits if_splits prod.splits)

lemma count_repo_mono:
  "count_repo si srv total_lines repo tr = (Inr total_lines', tr') \<Longrightarrow> total_lines \<le> total_lines'"
  by (drule count_repo_adds) auto

lemma count_repos_mono:
  "count_repos si srv total_lines repos tr = (Inr total_lines', tr') \<Longrightarrow> total_lines \<le> total_lines'"
proof (induction repos arbitrary: total_lines tr)
  case Nil
  then show ?case by simp
next
  case (Cons repo repos)
  from Cons.prems obtain mid tr1
    where step: "count_repo si srv total_lines repo tr = (Inr mid, tr1)"
      and rest: "count_repos si srv mid repos tr1 = (Inr total_lines', tr')"
    by (auto split: prod.splits sum.splits)
  from count_repo_mono [OF step] Cons.IH [OF rest] show ?case by simp
qed

lemma compute_total_lines_sum:
  assumes "compute_total_lines si srv repos tr = (Inr n, tr')"
  shows "0 \<le> n \<and> (\<exists>tr1. count_repos si srv 0 repos tr = (Inr n, tr1))"
proof -
  from assms obtain m tr1 where loop: "count_repos si srv 0 repos tr = (Inr m, tr1)"
    and n: "n = max m 0"
    by (auto simp: compute_total_lines_def split: prod.splits sum.splits)
  from count_repos_mono [OF loop] n have "n = m" "0 \<le> n" by simp_all
  with loop show ?thesis by blast
qed

lemma load_existing_stats_records:
  "load_existing_stats store tr = (Inr xs, tr') \<Longrightarrow> xs = records_of store"
  by (cases store) (auto simp: load_existing_stats_def split: json.splits if_splits)

lemma set_total_nonneg: "is_obj x \<Longrightarrow> 0 \<le> v \<Longrightarrow> nonneg_total (set_total v x)"
  by (simp add: nonneg_total_def set_total_field)

lemma new_record_nonneg: "0 \<le> v \<Longrightarrow> nonneg_total (new_record d v)"
  by (simp add: nonneg_total_def new_record_props)

lemma has_date_new_record: "has_date d' (new_record d v) \<longleftrightarrow> d' = d"
  by (auto simp: has_date_def new_record_def)

text \<open>
  The merge keeps three things: the entries are record entries, their totals are not
  negative when the new total is not, and no date has two entries.
\<close>

lemma upsert_keeps:
  assumes recs: "\<forall>x\<in>set xs. record_entry x \<and> nonneg_total x"
    and uniq: "\<forall>d'. length (filter (has_date d') xs) \<le> 1"
    and v: "0 \<le> v"
    and res: "upsert so xs d v = Inr ys"
  shows "(\<forall>y\<in>set ys. record_entry y \<and> nonneg_total y)
       \<and> (\<forall>d'. length (filter (has_date d') ys) \<le> 1)"
proof -
  from recs have recs': "\<forall>x\<in>set xs. record_entry x" by simp
  from upsert_records [OF recs', of d so v] res
  consider pre e post where "xs = pre @ e # post"
      "ys = sort_key date_key (pre @ set_total v e # post)"
    | "\<forall>x\<in>set xs. \<not> has_date d x" "ys = sort_key date_key (xs @ [new_record d v])"
    by auto
  then show ?thesis
  proof cases
    case 1
    with recs have "record_entry (set_total v e) \<and> nonneg_total (set_total v e)"
      using v by (auto intro: set_total_record set_total_nonneg dest: record_entry_obj)
    with 1 recs have clean: "\<forall>y\<in>set ys. record_entry y \<and> nonneg_total y" by auto
    have "length (filter (has_date d') ys) = length (filter (has_date d') xs)" for d'
      using 1 by (simp add: filter_has_date_sort set_total_has_date)
    with uniq clean show ?thesis by simp
  next
    case 2
    with recs v have clean: "\<forall>y\<in>set ys. record_entry y \<and> nonneg_total y"
      by (auto simp: new_record_props new_record_nonneg)
    have "length (filter (has_date d') ys) \<le> 1" for d'
    proof (cases "d' = d")
      case True
      from 2(1) have "filter (has_date d) xs = []" by simp
      with 2(2) True show ?thesis by (simp add: filter_has_date_sort has_date_new_record)
    next
      case False
      with 2(2) uniq show ?thesis by (simp add: filter_has_date_sort has_date_new_record)
    qed
    with clean show ?thesis by simp
  qed
qed

lemma update_stats_keeps:
  assumes recs: "\<forall>x\<in>set (records_of store). record_entry x \<and> nonneg_total x"
    and uniq: "\<forall>d'. length (filter (has_date d') (records_of store)) \<le> 1"
    and ran: "update_stats e store tr = Some (res, store', tr')"
  shows "(\<forall>x\<in>set (records_of store'). record_entry x \<and> nonneg_total x)
       \<and> (\<forall>d'. length (filter (has_date d') (records_of store')) \<le> 1)"
proof -
  consider "store' = store" | "store' = Undecodable"
    | repos tr1 n tr2 xs tr3 ys
      where "compute_total_lines (str_int e) (server e) repos tr1 = (Inr n, tr2)"
        "load_existing_stats store tr2 = (Inr xs, tr3)"
        "upsert (sort_other e) xs (today e) n = Inr ys"
        "store' = Content (JList ys)"
    using ran
    by (cases "disk e")
       (auto simp: update_stats_def split: option.splits prod.splits sum.splits if_splits)
  then show ?thesis
  proof cases
    case 1
    with recs uniq show ?thesis by simp
  next
    case 2
    then show ?thesis by simp
  next
    case 3
    from 3(2) have xs: "xs = records_of store" by (rule load_existing_stats_records)
    from compute_total_lines_sum [OF 3(1)] have "0 \<le> n" by simp
    from upsert_keeps [OF _ _ this 3(3)] recs uniq xs 3(4) show ?thesis by simp
  qed
qed

lemma produced_keeps:
  assumes "produced store"
  shows "(\<forall>x\<in>set (records_of store). record_entry x \<and> nonneg_total x)
       \<and> (\<forall>d'. length (filter (has_date d') (records_of store)) \<le> 1)"
  using assms
proof (induction rule: produced.induct)
  case initial
  show ?case by simp
next
  case (run store e tr res store' tr')
  from run.IH update_stats_keeps [OF _ _ run.hyps(2)] show ?case by blast
qed

section \<open>Merging twice\<close>

text \<open>
  C7. Lines 203--214 are idempotent. Take a list of record entries that holds at most one
  entry of the given date, as the store does (at most one record per date); in
  particular take the list of any file that runs of the script have produced. Applying
  the merge with a date and a value gives a list on which a second application with the
  same date and value changes nothing, so the list does not grow, and which holds
  exactly one entry of that date, with that value as its \<^verbatim>\<open>total_lines\<close>.
\<close>

theorem upsert_idempotent:
  "((\<forall>x\<in>set xs. record_entry x) \<and> length (filter (has_date d) xs) \<le> 1 \<longrightarrow>
      (\<exists>ys. upsert so xs d v = Inr ys \<and> upsert so ys d v = Inr ys \<and>
            (\<exists>e. filter (has_date d) ys = [e] \<and> field e ''total_lines'' = Some (JInt v))))
   \<and> (produced store \<longrightarrow>
      (\<exists>ys. upsert so (records_of store) d v = Inr ys \<and> upsert so ys d v = Inr ys \<and>
            (\<exists>e. filter (has_date d) ys = [e] \<and> field e ''total_lines'' = Some (JInt v))))"
proof (intro conjI impI)
  assume "(\<forall>x\<in>set xs. record_entry x) \<and> length (filter (has_date d) xs) \<le> 1"
  then show "\<exists>ys. upsert so xs d v = Inr ys \<and> upsert so ys d v = Inr ys \<and>
      (\<exists>e. filter (has_date d) ys = [e] \<and> field e ''total_lines'' = Some (JInt v))"
    using upsert_twice [of xs d so v] by blast
next
  assume "produced store"
  from produced_keeps [OF this]
  have "\<forall>x\<in>set (records_of store). record_entry x"
    and "length (filter (has_date d) (records_of store)) \<le> 1"
    by simp_all
  then show "\<exists>ys. upsert so (records_of store) d v = Inr ys \<and> upsert so ys d v = Inr ys \<and>
      (\<exists>e. filter (has_date d) ys = [e] \<and> field e ''total_lines'' = Some (JInt v))"
    by (rule upsert_twice)
qed

theorem upsert_idempotent_witness:
  "(\<exists>ys. upsert (\<lambda>xs. Inl TypeError)
           [JObj [(''date'', JStr ''2024-01-01''), (''total_lines'', JInt 500)]] ''2024-01-01'' 700
           = Inr ys
        \<and> upsert (\<lambda>xs. Inl TypeError) ys ''2024-01-01'' 700 = Inr ys
        \<and> (\<exists>e. filter (has_date ''2024-01-01'') ys = [e]
               \<and> field e ''total_lines'' = Some (JInt 700)))
   \<and> produced (Content (JList [JObj [(''date'', JStr ''2024-01-02''), (''total_lines'', JInt 0)]]))
   \<and> (\<exists>ys. upsert (\<lambda>xs. Inl TypeError)
           [JObj [(''date'', JStr ''2024-01-02''), (''total_lines'', JInt 0)]] ''2024-01-03'' 41
           = Inr ys
        \<and> upsert (\<lambda>xs. Inl TypeError) ys ''2024-01-03'' 41 = Inr ys
        \<and> (\<exists>e. filter (has_date ''2024-01-03'') ys = [e]
               \<and> field e ''total_lines'' = Some (JInt 41)))"
proof -
  let ?e = "example_env
      (JList [JObj [(''full_name'', JStr ''octocat/hello''), (''fork'', JBool False),
                    (''owner'', JObj [(''login'', JStr ''octocat'')]),
                    (''name'', JStr ''hello'')]])
      (Inr \<lparr>status_code = 204, body = None\<rparr>) (Inl RequestException) ''2024-01-02''"
  have "update_stats ?e Absent [] =
      Some (Inr (), Content (JList [JObj [(''date'', JStr ''2024-01-02''), (''total_lines'', JInt 0)]]),
            [Print Info 38, Get (UserRepos 1), Print Info 58, Get (UserRepos 2), Print Info 62,
             Print Info 141, Get (CodeFrequency (JStr ''octocat'') (JStr ''hello'')),
             Print Warn 95, Print Info 160, Print Info 163, Print Info 169,
             WriteStats [JObj [(''date'', JStr ''2024-01-02''), (''total_lines'', JInt 0)]],
             Print Info 187])"
    by (simp add: run_defs)
  from produced.run [OF produced.initial this]
  have made: "produced (Content (JList [JObj [(''date'', JStr ''2024-01-02''), (''total_lines'', JInt 0)]]))" .
  show ?thesis
    using upsert_idempotent
        [of "[JObj [(''date'', JStr ''2024-01-01''), (''total_lines'', JInt 500)]]"
            "''2024-01-01''" "\<lambda>xs. Inl TypeError" 700 Absent]
      upsert_idempotent
        [of "[]" "''2024-01-03''" "\<lambda>xs. Inl TypeError" 41
            "Content (JList [JObj [(''date'', JStr ''2024-01-02''), (''total_lines'', JInt 0)]])"]
      made
    by (simp add: record_entry_def has_date_def)
qed

section \<open>The totals in the file\<close>

text \<open>
  C6. In every file that runs of the script produce, starting with no file, every record
  has a \<^verbatim>\<open>total_lines\<close> that is an integer and not negative, though the estimate of a
  repository may be negative. An iteration of the loop that counts a repository adds
  \<^verbatim>\<open>max(repo_total, 0)\<close> to the running total (line 161), so a repository whose estimate
  is negative adds 0, and no iteration lowers the running total. The total that
  \<^verbatim>\<open>compute_total_lines\<close> returns (line 164) is the total the loop ends with, which started
  at 0, and it is not negative.
\<close>

theorem persisted_totals_nonneg:
  "(produced store \<longrightarrow> (\<forall>x\<in>set (records_of store). nonneg_total x))
   \<and> (count_repo si srv total_lines repo tr = (Inr total_lines', tr') \<longrightarrow>
        total_lines \<le> total_lines' \<and>
        (total_lines' = total_lines \<and> tr' = tr
         \<or> (\<exists>owner name estimate tr1.
               repo_total si srv owner name (tr @ [Print Info 141]) = (Inr estimate, tr1)
               \<and> total_lines' = total_lines + max estimate 0
               \<and> (estimate < 0 \<longrightarrow> total_lines' = total_lines)
               \<and> tr' = tr1 @ [Print Info 160])))
   \<and> (compute_total_lines si srv repos tr = (Inr n, tr') \<longrightarrow>
        0 \<le> n \<and> (\<exists>tr1. count_repos si srv 0 repos tr = (Inr n, tr1)))"
proof (intro conjI impI)
  assume "produced store"
  from produced_keeps [OF this] show "\<forall>x\<in>set (records_of store). nonneg_total x" by simp
next
  assume step: "count_repo si srv total_lines repo tr = (Inr total_lines', tr')"
  then show "total_lines \<le> total_lines'" by (rule count_repo_mono)
  from count_repo_adds [OF step]
  show "total_lines' = total_lines \<and> tr' = tr
         \<or> (\<exists>owner name estimate tr1.
               repo_total si srv owner name (tr @ [Print Info 141]) = (Inr estimate, tr1)
               \<and> total_lines' = total_lines + max estimate 0
               \<and> (estimate < 0 \<longrightarrow> total_lines' = total_lines)
               \<and> tr' = tr1 @ [Print Info 160])"
  proof (elim disjE exE conjE)
    assume "total_lines' = total_lines" and "tr' = tr"
    then show ?thesis by simp
  next
    fix owner name estimate tr1
    assume est: "repo_total si srv owner name (tr @ [Print Info 141]) = (Inr estimate, tr1)"
      and sum: "total_lines' = total_lines + max estimate 0"
      and tr': "tr' = tr1 @ [Print Info 160]"
    from sum have "estimate < 0 \<longrightarrow> total_lines' = total_lines" by simp
    with est sum tr' show ?thesis by blast
  qed
next
  assume total: "compute_total_lines si srv repos tr = (Inr n, tr')"
  from compute_total_lines_sum [OF total] show "0 \<le> n"
    and "\<exists>tr1. count_repos si srv 0 repos tr = (Inr n, tr1)"
    by simp_all
qed

text \<open>
  Two repositories, one with 10 additions and 500 deletions (estimate \<open>-490\<close>) and one
  with 7 additions: the first adds 0, the total is 7 and the record written holds 7.
\<close>

theorem persisted_totals_nonneg_witness:
  "count_repo no_digits
     (repo_service (JList [])
        (\<lambda>name. Inr \<lparr>status_code = 200,
           body = Some (JList [JList [JInt 1700000000,
                                      JInt (if name = JStr ''deleted'' then 10 else 7),
                                      JInt (if name = JStr ''deleted'' then 500 else 0)]])\<rparr>))
     0
     (JObj [(''full_name'', JStr ''octocat/deleted''), (''fork'', JBool False),
            (''owner'', JObj [(''login'', JStr ''octocat'')]), (''name'', JStr ''deleted'')])
     []
    = (Inr 0, [Print Info 141, Get (CodeFrequency (JStr ''octocat'') (JStr ''deleted'')),
               Print Info 160])
   \<and> repo_total no_digits
     (repo_service (JList [])
        (\<lambda>name. Inr \<lparr>status_code = 200,
           body = Some (JList [JList [JInt 1700000000,
                                      JInt (if name = JStr ''deleted'' then 10 else 7),
                                      JInt (if name = JStr ''deleted'' then 500 else 0)]])\<rparr>))
     (JStr ''octocat'') (JStr ''deleted'') [Print Info 141]
    = (Inr (- 490), [Print Info 141, Get (CodeFrequency (JStr ''octocat'') (JStr ''deleted''))])
   \<and> produced (Content (JList [JObj [(''date'', JStr ''2024-01-02''), (''total_lines'', JInt 7)]]))
   \<and> nonneg_total (JObj [(''date'', JStr ''2024-01-02''), (''total_lines'', JInt 7)])"
proof -
  let ?deleted = "JObj [(''full_name'', JStr ''octocat/deleted''), (''fork'', JBool False),
            (''owner'', JObj [(''login'', JStr ''octocat'')]), (''name'', JStr ''deleted'')]"
  let ?kept = "JObj [(''full_name'', JStr ''octocat/kept''), (''fork'', JBool False),
            (''owner'', JObj [(''login'', JStr ''octocat'')]), (''name'', JStr ''kept'')]"
  let ?freq = "\<lambda>name. Inr \<lparr>status_code = 200,
           body = Some (JList [JList [JInt 1700000000,
                                      JInt (if name = JStr ''deleted'' then 10 else 7),
                                      JInt (if name = JStr ''deleted'' then 500 else 0)]])\<rparr>"
  let ?e = "\<lparr>server = repo_service (JList [?deleted, ?kept]) ?freq, str_int = no_digits,
            sort_other = (\<lambda>xs. Inl TypeError), token = True, today = ''2024-01-02'',
            disk = Written\<rparr>"
  have step: "count_repo no_digits (repo_service (JList []) ?freq) 0 ?deleted []
      = (Inr 0, [Print Info 141, Get (CodeFrequency (JStr ''octocat'') (JStr ''deleted'')),
                 Print Info 160])"
    by (simp add: run_defs repo_service_def)
  have estimate: "repo_total no_digits (repo_service (JList []) ?freq)
       (JStr ''octocat'') (JStr ''deleted'') [Print Info 141]
      = (Inr (- 490), [Print Info 141, Get (CodeFrequency (JStr ''octocat'') (JStr ''deleted''))])"
    by (simp add: run_defs repo_service_def)
  have "update_stats ?e Absent [] =
      Some (Inr (), Content (JList [JObj [(''date'', JStr ''2024-01-02''), (''total_lines'', JInt 7)]]),
            [Print Info 38, Get (UserRepos 1), Print Info 58, Get (UserRepos 2), Print Info 62,
             Print Info 141, Get (CodeFrequency (JStr ''octocat'') (JStr ''deleted'')),
             Print Info 160,
             Print Info 141, Get (CodeFrequency (JStr ''octocat'') (JStr ''kept'')),
             Print Info 160, Print Info 163, Print Info 169,
             WriteStats [JObj [(''date'', JStr ''2024-01-02''), (''total_lines'', JInt 7)]],
             Print Info 187])"
    by (simp add: run_defs repo_service_def)
  from produced.run [OF produced.initial this]
  have made: "produced (Content (JList [JObj [(''date'', JStr ''2024-01-02''), (''total_lines'', JInt 7)]]))" .
  show ?thesis
    using persisted_totals_nonneg
        [of "Content (JList [JObj [(''date'', JStr ''2024-01-02''), (''total_lines'', JInt 7)]])"
            no_digits "repo_service (JList []) ?freq" 0 ?deleted "[]" 0
            "[Print Info 141, Get (CodeFrequency (JStr ''octocat'') (JStr ''deleted'')),
              Print Info 160]"]
      made step estimate
    by simp
qed

end
